theory Spec2Isabelle
  imports Main "HOL-Library.AList"
begin

section \<open>Data model of \<open>AlgoliaSearch/registration.py\<close>\<close>

text \<open>
  The module defines one class, \<open>AlgoliaEngine\<close>, holding a private dictionary
  \<open>__registered_models\<close> from model classes to adapter objects and a client handle.
  Its methods read and update that dictionary, subscribe two receivers to the
  \<open>post_save\<close> and \<open>pre_delete\<close> signals, and call the adapter found for an instance.

  Model classes (\<open>'m\<close>) and adapter objects (\<open>'a\<close>) are opaque: the engine only uses
  them as dictionary keys and values. An instance carries its \<open>__class__\<close>.
\<close>

datatype Client = Client (application_id: string) (api_key: string)

record settings =
  ALGOLIA_APPLICATION_ID :: string
  ALGOLIA_API_KEY :: string

record ('m, 'd) model_instance =
  class_of :: 'm
  attrs :: 'd

text \<open>
  The two messages of \<open>RegistrationError\<close>: \<open>'{} is already registered with Algolia engine'\<close>
  and \<open>'{} is not registered with Algolia engine'\<close>, each formatted with the model.
\<close>

datatype 'm message = AlreadyRegistered 'm | NotRegistered 'm

text \<open>
  \<open>RegistrationError\<close> is the only exception the module raises itself. \<open>KeyError\<close> is what
  a dictionary read or \<open>del\<close> raises on a missing key. \<open>Foreign\<close> is an exception raised
  by a collaborator (the adapter class or an adapter method), which the engine never catches;
  such an exception is opaque to the engine and is identified here by its text.
\<close>

datatype exn = Raised string

datatype 'm error = RegistrationError "'m message" | KeyError 'm | Foreign exn

text \<open>The calls the engine makes to its collaborators, in the order it makes them.\<close>

datatype ('m, 'a, 'd) call =
    IndexCls 'm Client
  | UpdateObjIndex 'a "('m, 'd) model_instance"
  | DeleteObjIndex 'a "('m, 'd) model_instance"

text \<open>
  The state the module acts on: the engine's two attributes, the senders for which the
  engine's receiver is connected to each of the two signals, and the log of calls made
  to collaborators.
\<close>

record ('m, 'a, 'd) world =
  registered_models :: "('m \<times> 'a) list"
  client :: Client
  post_save :: "'m list"
  pre_delete :: "'m list"
  calls :: "('m, 'a, 'd) call list"

subsection \<open>Python dictionaries\<close>

text \<open>
  A dictionary is an association list in insertion order. Assignment replaces the value
  of a present key in place and appends an absent one; reading or deleting an absent key
  raises \<open>KeyError\<close>.
\<close>

definition dict_contains :: "'k \<Rightarrow> ('k \<times> 'v) list \<Rightarrow> bool" where
  "dict_contains k d = (k \<in> set (map fst d))"

definition dict_getitem :: "('k \<times> 'v) list \<Rightarrow> 'k \<Rightarrow> 'k error + 'v" where
  "dict_getitem d k = (case map_of d k of None \<Rightarrow> Inl (KeyError k) | Some v \<Rightarrow> Inr v)"

definition dict_setitem :: "'k \<Rightarrow> 'v \<Rightarrow> ('k \<times> 'v) list \<Rightarrow> ('k \<times> 'v) list" where
  "dict_setitem k v d = AList.update k v d"

definition dict_delitem :: "'k \<Rightarrow> ('k \<times> 'v) list \<Rightarrow> 'k error + ('k \<times> 'v) list" where
  "dict_delitem k d = (if dict_contains k d then Inr (AList.delete k d) else Inl (KeyError k))"

definition dict_keys :: "('k \<times> 'v) list \<Rightarrow> 'k list" where
  "dict_keys d = map fst d"

subsection \<open>Collaborators\<close>

text \<open>
  Modelled from the spec: the notification source (the signals \<open>post_save\<close> and
  \<open>pre_delete\<close>) is outside the repository. The spec has \<open>register\<close> subscribe the two
  handlers "scoped to \<open>model\<close>" and \<open>unregister\<close> cancel both subscriptions. The receiver
  is always the engine's own bound method, so a subscription is identified by its sender:
  connecting a sender already connected adds nothing, disconnecting removes the entry.
\<close>

definition connect :: "'m \<Rightarrow> 'm list \<Rightarrow> 'm list" where
  "connect sender receivers = (if sender \<in> set receivers then receivers else receivers @ [sender])"

definition disconnect :: "'m \<Rightarrow> 'm list \<Rightarrow> 'm list" where
  "disconnect sender receivers = remove1 sender receivers"

text \<open>
  Modelled from the spec: the adapter class lives in \<open>AlgoliaSearch/models.py\<close>, which is
  not part of the sources. The spec says of an adapter that its update and delete
  operations are "both side-effecting calls to the remote index, both may fail". A call
  is appended to the log, and whether it raises is decided by the environment \<open>env\<close>,
  which sees the calls made so far and the call itself.
\<close>

type_synonym ('m, 'a, 'd) behaviour =
  "('m, 'a, 'd) call list \<Rightarrow> ('m, 'a, 'd) call \<Rightarrow> exn option"

definition invoke ::
  "('m, 'a, 'd) behaviour \<Rightarrow> ('m, 'a, 'd) call \<Rightarrow> ('m, 'a, 'd) world
     \<Rightarrow> ('m error + unit) \<times> ('m, 'a, 'd) world" where
  "invoke env c e =
     ((case env (calls e) c of None \<Rightarrow> Inr () | Some x \<Rightarrow> Inl (Foreign x)),
      e\<lparr>calls := calls e @ [c]\<rparr>)"

section \<open>The class \<open>AlgoliaEngine\<close>\<close>

text \<open>
  Every method takes the state and returns its result with the state it leaves behind.
  A method that can raise returns \<open>Inl\<close> of the exception.
\<close>

definition AlgoliaEngine_init :: "settings \<Rightarrow> ('m, 'a, 'd) world" where
  "AlgoliaEngine_init s =
     \<lparr>registered_models = [],
      client = Client (ALGOLIA_APPLICATION_ID s) (ALGOLIA_API_KEY s),
      post_save = [], pre_delete = [], calls = []\<rparr>"

definition is_registered :: "('m, 'a, 'd) world \<Rightarrow> 'm \<Rightarrow> bool \<times> ('m, 'a, 'd) world" where
  "is_registered e model = (dict_contains model (registered_models e), e)"

definition register ::
  "('m, 'a, 'd) world \<Rightarrow> 'm \<Rightarrow> ('m \<Rightarrow> Client \<Rightarrow> exn + 'a)
     \<Rightarrow> ('m error + unit) \<times> ('m, 'a, 'd) world" where
  "register e model index_cls =
     (let (registered, e1) = is_registered e model in
      if registered then (Inl (RegistrationError (AlreadyRegistered model)), e1)
      else
        let e2 = e1\<lparr>calls := calls e1 @ [IndexCls model (client e1)]\<rparr> in
        (case index_cls model (client e1) of
           Inl x \<Rightarrow> (Inl (Foreign x), e2)
         | Inr index_obj \<Rightarrow>
             let e3 = e2\<lparr>registered_models := dict_setitem model index_obj (registered_models e2)\<rparr>;
                 e4 = e3\<lparr>post_save := connect model (post_save e3)\<rparr>;
                 e5 = e4\<lparr>pre_delete := connect model (pre_delete e4)\<rparr>
             in (Inr (), e5)))"

definition unregister ::
  "('m, 'a, 'd) world \<Rightarrow> 'm \<Rightarrow> ('m error + unit) \<times> ('m, 'a, 'd) world" where
  "unregister e model =
     (let (registered, e1) = is_registered e model in
      if \<not> registered then (Inl (RegistrationError (NotRegistered model)), e1)
      else
        (case dict_delitem model (registered_models e1) of
           Inl err \<Rightarrow> (Inl err, e1)
         | Inr d \<Rightarrow>
             let e2 = e1\<lparr>registered_models := d\<rparr>;
                 e3 = e2\<lparr>post_save := disconnect model (post_save e2)\<rparr>;
                 e4 = e3\<lparr>pre_delete := disconnect model (pre_delete e3)\<rparr>
             in (Inr (), e4)))"

definition get_registered_models :: "('m, 'a, 'd) world \<Rightarrow> 'm list \<times> ('m, 'a, 'd) world" where
  "get_registered_models e = (dict_keys (registered_models e), e)"

definition get_adapter ::
  "('m, 'a, 'd) world \<Rightarrow> 'm \<Rightarrow> ('m error + 'a) \<times> ('m, 'a, 'd) world" where
  "get_adapter e model =
     (let (registered, e1) = is_registered e model in
      if registered then (dict_getitem (registered_models e1) model, e1)
      else (Inl (RegistrationError (NotRegistered model)), e1))"

definition get_adapter_from_instance ::
  "('m, 'a, 'd) world \<Rightarrow> ('m, 'd) model_instance \<Rightarrow> ('m error + 'a) \<times> ('m, 'a, 'd) world" where
  "get_adapter_from_instance e inst = (let model = class_of inst in get_adapter e model)"

definition update_obj_index ::
  "('m, 'a, 'd) behaviour \<Rightarrow> ('m, 'a, 'd) world \<Rightarrow> ('m, 'd) model_instance
     \<Rightarrow> ('m error + unit) \<times> ('m, 'a, 'd) world" where
  "update_obj_index env e obj =
     (case get_adapter_from_instance e obj of
        (Inl err, e1) \<Rightarrow> (Inl err, e1)
      | (Inr adapter, e1) \<Rightarrow> invoke env (UpdateObjIndex adapter obj) e1)"

definition delete_obj_index ::
  "('m, 'a, 'd) behaviour \<Rightarrow> ('m, 'a, 'd) world \<Rightarrow> ('m, 'd) model_instance
     \<Rightarrow> ('m error + unit) \<times> ('m, 'a, 'd) world" where
  "delete_obj_index env e obj =
     (case get_adapter_from_instance e obj of
        (Inl err, e1) \<Rightarrow> (Inl err, e1)
      | (Inr adapter, e1) \<Rightarrow> invoke env (DeleteObjIndex adapter obj) e1)"

text \<open>The signal hooks. Each takes the instance and ignores the other keyword arguments.\<close>

definition post_save_receiver ::
  "('m, 'a, 'd) behaviour \<Rightarrow> ('m, 'a, 'd) world \<Rightarrow> ('m, 'd) model_instance \<Rightarrow> 'k
     \<Rightarrow> ('m error + unit) \<times> ('m, 'a, 'd) world" where
  "post_save_receiver env e inst kwargs = update_obj_index env e inst"

definition pre_delete_receiver ::
  "('m, 'a, 'd) behaviour \<Rightarrow> ('m, 'a, 'd) world \<Rightarrow> ('m, 'd) model_instance \<Rightarrow> 'k
     \<Rightarrow> ('m error + unit) \<times> ('m, 'a, 'd) world" where
  "pre_delete_receiver env e inst kwargs = delete_obj_index env e inst"

text \<open>The invariant of the data model: no model class has two entries in the registry.\<close>

definition at_most_one_adapter :: "('m, 'a, 'd) world \<Rightarrow> bool" where
  "at_most_one_adapter e = distinct (map fst (registered_models e))"

section \<open>Programs that use the engine\<close>

text \<open>
  A program using the engine is a sequence of method calls and of signals delivered to
  the two receivers. A call that raises leaves the state it had reached, and the next
  call starts there. \<open>run\<close> gives the state after such a sequence; \<open>registers M\<close> tells
  whether a call is \<open>register(M, ...)\<close>.
\<close>

datatype ('m, 'a, 'd) method_call =
    CallRegister 'm "'m \<Rightarrow> Client \<Rightarrow> exn + 'a"
  | CallUnregister 'm
  | CallIsRegistered 'm
  | CallGetRegisteredModels
  | CallGetAdapter 'm
  | CallGetAdapterFromInstance "('m, 'd) model_instance"
  | CallUpdateObjIndex "('m, 'd) model_instance"
  | CallDeleteObjIndex "('m, 'd) model_instance"
  | SignalPostSave "('m, 'd) model_instance"
  | SignalPreDelete "('m, 'd) model_instance"

fun step ::
  "('m, 'a, 'd) behaviour \<Rightarrow> ('m, 'a, 'd) world \<Rightarrow> ('m, 'a, 'd) method_call
     \<Rightarrow> ('m, 'a, 'd) world" where
  "step env e (CallRegister model index_cls) = snd (register e model index_cls)"
| "step env e (CallUnregister model) = snd (unregister e model)"
| "step env e (CallIsRegistered model) = snd (is_registered e model)"
| "step env e CallGetRegisteredModels = snd (get_registered_models e)"
| "step env e (CallGetAdapter model) = snd (get_adapter e model)"
| "step env e (CallGetAdapterFromInstance inst) = snd (get_adapter_from_instance e inst)"
| "step env e (CallUpdateObjIndex obj) = snd (update_obj_index env e obj)"
| "step env e (CallDeleteObjIndex obj) = snd (delete_obj_index env e obj)"
| "step env e (SignalPostSave inst) = snd (post_save_receiver env e inst ())"
| "step env e (SignalPreDelete inst) = snd (pre_delete_receiver env e inst ())"

definition run ::
  "('m, 'a, 'd) behaviour \<Rightarrow> ('m, 'a, 'd) world \<Rightarrow> ('m, 'a, 'd) method_call list
     \<Rightarrow> ('m, 'a, 'd) world" where
  "run env e ops = foldl (step env) e ops"


section \<open>What each method computes\<close>

text \<open>
  Each method unfolded to a single case distinction on the dictionary; the properties
  below are read off these equations.
\<close>

lemma is_registered_conv:
  "is_registered e m = (m \<in> fst ` set (registered_models e), e)"
  by (simp add: is_registered_def dict_contains_def)

lemma get_adapter_conv:
  "get_adapter e m =
     ((case map_of (registered_models e) m of
         None \<Rightarrow> Inl (RegistrationError (NotRegistered m))
       | Some a \<Rightarrow> Inr a), e)"
proof (cases "map_of (registered_models e) m")
  case None
  then have "m \<notin> fst ` set (registered_models e)"
    by (simp add: map_of_eq_None_iff)
  with None show ?thesis
    by (simp add: get_adapter_def is_registered_conv)
next
  case (Some a)
  then have "m \<in> fst ` set (registered_models e)"
    by (metis map_of_eq_None_iff option.distinct(1))
  with Some show ?thesis
    by (simp add: get_adapter_def is_registered_conv dict_getitem_def)
qed

lemma get_adapter_from_instance_conv:
  "get_adapter_from_instance e x =
     ((case map_of (registered_models e) (class_of x) of
         None \<Rightarrow> Inl (RegistrationError (NotRegistered (class_of x)))
       | Some a \<Rightarrow> Inr a), e)"
  by (simp add: get_adapter_from_instance_def get_adapter_conv Let_def)

lemma update_obj_index_conv:
  "update_obj_index env e obj =
     (case map_of (registered_models e) (class_of obj) of
        None \<Rightarrow> (Inl (RegistrationError (NotRegistered (class_of obj))), e)
      | Some a \<Rightarrow>
          ((case env (calls e) (UpdateObjIndex a obj) of None \<Rightarrow> Inr () | Some x \<Rightarrow> Inl (Foreign x)),
           e\<lparr>calls := calls e @ [UpdateObjIndex a obj]\<rparr>))"
  by (simp add: update_obj_index_def get_adapter_from_instance_conv invoke_def split: option.split)

lemma delete_obj_index_conv:
  "delete_obj_index env e obj =
     (case map_of (registered_models e) (class_of obj) of
        None \<Rightarrow> (Inl (RegistrationError (NotRegistered (class_of obj))), e)
      | Some a \<Rightarrow>
          ((case env (calls e) (DeleteObjIndex a obj) of None \<Rightarrow> Inr () | Some x \<Rightarrow> Inl (Foreign x)),
           e\<lparr>calls := calls e @ [DeleteObjIndex a obj]\<rparr>))"
  by (simp add: delete_obj_index_def get_adapter_from_instance_conv invoke_def split: option.split)

lemma register_conv:
  "register e m index_cls =
     (if m \<in> fst ` set (registered_models e)
      then (Inl (RegistrationError (AlreadyRegistered m)), e)
      else (case index_cls m (client e) of
              Inl x \<Rightarrow> (Inl (Foreign x), e\<lparr>calls := calls e @ [IndexCls m (client e)]\<rparr>)
            | Inr a \<Rightarrow>
                (Inr (), e\<lparr>registered_models := AList.update m a (registered_models e),
                           post_save := connect m (post_save e),
                           pre_delete := connect m (pre_delete e),
                           calls := calls e @ [IndexCls m (client e)]\<rparr>)))"
  by (simp add: register_def is_registered_conv dict_setitem_def Let_def split: sum.split)

lemma unregister_conv:
  "unregister e m =
     (if m \<in> fst ` set (registered_models e)
      then (Inr (), e\<lparr>registered_models := AList.delete m (registered_models e),
                      post_save := disconnect m (post_save e),
                      pre_delete := disconnect m (pre_delete e)\<rparr>)
      else (Inl (RegistrationError (NotRegistered m)), e))"
  by (simp add: unregister_def is_registered_conv dict_delitem_def dict_contains_def Let_def)

lemma registered_map_of:
  "m \<in> fst ` set d \<Longrightarrow> \<exists>a. map_of d m = Some a"
  by (metis map_of_eq_None_iff not_Some_eq)


lemma invariant_init: "at_most_one_adapter (AlgoliaEngine_init s)"
  by (simp add: at_most_one_adapter_def AlgoliaEngine_init_def)


lemma step_invariant:
  "at_most_one_adapter e \<Longrightarrow> at_most_one_adapter (step env e c)"
  by (cases c)
     (simp_all add: at_most_one_adapter_def register_conv unregister_conv is_registered_conv
        get_registered_models_def get_adapter_conv get_adapter_from_instance_conv
        update_obj_index_conv delete_obj_index_conv post_save_receiver_def
        pre_delete_receiver_def AList.distinct_update AList.distinct_delete
        split: sum.split option.split)

lemma run_invariant:
  "at_most_one_adapter e \<Longrightarrow> at_most_one_adapter (run env e ops)"
  unfolding run_def
  by (induction ops arbitrary: e) (simp_all add: step_invariant)



section \<open>Properties of the registry\<close>

text \<open>
  Claim C1. When the class of an instance \<open>x\<close> is registered, the dictionary holds an
  adapter \<open>a\<close> under that class, \<open>get_adapter\<close> returns it, and the receiver of the saved
  signal makes one call to the update operation of \<open>a\<close> applied to \<open>x\<close>, the receiver of
  the before-deleted signal one call to its delete operation applied to \<open>x\<close>: the call log
  grows by exactly that one entry, nothing else in the state changes, and the receiver
  returns or raises as the adapter call does. When the class of \<open>x\<close> is not registered,
  either receiver raises \<open>RegistrationError\<close> and leaves the state, and so the call log,
  as it was. Once \<open>register\<close> has stored the adapter \<open>b\<close> its adapter class returned for
  the class of \<open>x\<close>, the receivers call \<open>b\<close>. (The source names the adapter operations
  \<open>update_obj_index\<close> and \<open>delete_obj_index\<close>.)
\<close>

theorem receivers_call_adapter_once:
  fixes e :: "('m, 'a, 'd) world" and env :: "('m, 'a, 'd) behaviour"
  shows
  "(fst (is_registered e (class_of x)) \<longrightarrow>
      (\<exists>a. map_of (registered_models e) (class_of x) = Some a \<and>
           get_adapter e (class_of x) = (Inr a, e) \<and>
           post_save_receiver env e x kwargs =
             ((case env (calls e) (UpdateObjIndex a x) of
                 None \<Rightarrow> Inr () | Some ex \<Rightarrow> Inl (Foreign ex)),
              e\<lparr>calls := calls e @ [UpdateObjIndex a x]\<rparr>) \<and>
           pre_delete_receiver env e x kwargs =
             ((case env (calls e) (DeleteObjIndex a x) of
                 None \<Rightarrow> Inr () | Some ex \<Rightarrow> Inl (Foreign ex)),
              e\<lparr>calls := calls e @ [DeleteObjIndex a x]\<rparr>))) \<and>
   (\<not> fst (is_registered e (class_of x)) \<longrightarrow>
      post_save_receiver env e x kwargs =
        (Inl (RegistrationError (NotRegistered (class_of x))), e) \<and>
      pre_delete_receiver env e x kwargs =
        (Inl (RegistrationError (NotRegistered (class_of x))), e)) \<and>
   (\<not> fst (is_registered e (class_of x)) \<and> f (class_of x) (client e) = Inr b \<longrightarrow>
      (let e1 = snd (register e (class_of x) f) in
         post_save_receiver env e1 x kwargs =
           ((case env (calls e1) (UpdateObjIndex b x) of
               None \<Rightarrow> Inr () | Some ex \<Rightarrow> Inl (Foreign ex)),
            e1\<lparr>calls := calls e1 @ [UpdateObjIndex b x]\<rparr>) \<and>
         pre_delete_receiver env e1 x kwargs =
           ((case env (calls e1) (DeleteObjIndex b x) of
               None \<Rightarrow> Inr () | Some ex \<Rightarrow> Inl (Foreign ex)),
            e1\<lparr>calls := calls e1 @ [DeleteObjIndex b x]\<rparr>)))"
proof (intro conjI impI)
  assume "fst (is_registered e (class_of x))"
  then obtain a where "map_of (registered_models e) (class_of x) = Some a"
    using registered_map_of by (fastforce simp: is_registered_conv)
  then show "\<exists>a. map_of (registered_models e) (class_of x) = Some a \<and>
           get_adapter e (class_of x) = (Inr a, e) \<and>
           post_save_receiver env e x kwargs =
             ((case env (calls e) (UpdateObjIndex a x) of
                 None \<Rightarrow> Inr () | Some ex \<Rightarrow> Inl (Foreign ex)),
              e\<lparr>calls := calls e @ [UpdateObjIndex a x]\<rparr>) \<and>
           pre_delete_receiver env e x kwargs =
             ((case env (calls e) (DeleteObjIndex a x) of
                 None \<Rightarrow> Inr () | Some ex \<Rightarrow> Inl (Foreign ex)),
              e\<lparr>calls := calls e @ [DeleteObjIndex a x]\<rparr>)"
    by (simp add: post_save_receiver_def pre_delete_receiver_def get_adapter_conv
          update_obj_index_conv delete_obj_index_conv)
next
  assume "\<not> fst (is_registered e (class_of x))"
  then have none: "map_of (registered_models e) (class_of x) = None"
    by (simp add: is_registered_conv map_of_eq_None_iff)
  show "post_save_receiver env e x kwargs =
        (Inl (RegistrationError (NotRegistered (class_of x))), e)"
    by (simp add: post_save_receiver_def update_obj_index_conv none)
  show "pre_delete_receiver env e x kwargs =
        (Inl (RegistrationError (NotRegistered (class_of x))), e)"
    by (simp add: pre_delete_receiver_def delete_obj_index_conv none)
next
  assume h: "\<not> fst (is_registered e (class_of x)) \<and> f (class_of x) (client e) = Inr b"
  let ?e1 = "snd (register e (class_of x) f)"
  from h have "map_of (registered_models ?e1) (class_of x) = Some b"
    by (simp add: register_conv is_registered_conv AList.update_conv')
  then show "let e1 = snd (register e (class_of x) f) in
         post_save_receiver env e1 x kwargs =
           ((case env (calls e1) (UpdateObjIndex b x) of
               None \<Rightarrow> Inr () | Some ex \<Rightarrow> Inl (Foreign ex)),
            e1\<lparr>calls := calls e1 @ [UpdateObjIndex b x]\<rparr>) \<and>
         pre_delete_receiver env e1 x kwargs =
           ((case env (calls e1) (DeleteObjIndex b x) of
               None \<Rightarrow> Inr () | Some ex \<Rightarrow> Inl (Foreign ex)),
            e1\<lparr>calls := calls e1 @ [DeleteObjIndex b x]\<rparr>)"
    by (simp add: Let_def post_save_receiver_def pre_delete_receiver_def
          update_obj_index_conv delete_obj_index_conv)
qed

text \<open>The same at a concrete state.\<close>

theorem receivers_call_adapter_once_witness:
  "(let e = \<lparr>registered_models = [(''Author'', 2::nat), (''Article'', 1), (''Comment'', 3)],
             client = Client ''app'' ''key'',
             post_save = [''Author'', ''Article'', ''Comment''],
             pre_delete = [''Author'', ''Article'', ''Comment''],
             calls = []\<rparr>;
        x = \<lparr>class_of = ''Article'', attrs = 7::nat\<rparr>;
        y = \<lparr>class_of = ''Tag'', attrs = 3::nat\<rparr>;
        env = (\<lambda>log c. None);
        e1 = snd (register e ''Tag'' (\<lambda>m c. Inr 4))
    in fst (is_registered e (class_of x)) \<and>
       map_of (registered_models e) (class_of x) = Some 1 \<and>
       post_save_receiver env e x () = (Inr (), e\<lparr>calls := [UpdateObjIndex 1 x]\<rparr>) \<and>
       pre_delete_receiver env e x () = (Inr (), e\<lparr>calls := [DeleteObjIndex 1 x]\<rparr>) \<and>
       \<not> fst (is_registered e (class_of y)) \<and>
       post_save_receiver env e y () = (Inl (RegistrationError (NotRegistered ''Tag'')), e) \<and>
       pre_delete_receiver env e y () = (Inl (RegistrationError (NotRegistered ''Tag'')), e) \<and>
       calls e1 = [IndexCls ''Tag'' (Client ''app'' ''key'')] \<and>
       post_save_receiver env e1 y () =
         (Inr (), e1\<lparr>calls := [IndexCls ''Tag'' (Client ''app'' ''key''), UpdateObjIndex 4 y]\<rparr>) \<and>
       pre_delete_receiver env e1 y () =
         (Inr (), e1\<lparr>calls := [IndexCls ''Tag'' (Client ''app'' ''key''), DeleteObjIndex 4 y]\<rparr>))"
proof -
  let ?e = "\<lparr>registered_models = [(''Author'', 2::nat), (''Article'', 1), (''Comment'', 3)],
             client = Client ''app'' ''key'',
             post_save = [''Author'', ''Article'', ''Comment''],
             pre_delete = [''Author'', ''Article'', ''Comment''],
             calls = []\<rparr> :: (string, nat, nat) world"
  let ?x = "\<lparr>class_of = ''Article'', attrs = 7::nat\<rparr>"
  let ?y = "\<lparr>class_of = ''Tag'', attrs = 3::nat\<rparr>"
  let ?env = "(\<lambda>log c. None) :: (string, nat, nat) behaviour"
  let ?f = "(\<lambda>m c. Inr 4) :: string \<Rightarrow> Client \<Rightarrow> exn + nat"
  have reg: "fst (is_registered ?e (class_of ?x))"
    by (simp add: is_registered_conv)
  have unreg: "\<not> fst (is_registered ?e (class_of ?y))"
    by (simp add: is_registered_conv)
  have fac: "?f (class_of ?y) (client ?e) = Inr 4"
    by simp
  have log: "calls (snd (register ?e ''Tag'' ?f)) = [IndexCls ''Tag'' (Client ''app'' ''key'')]"
    by (simp add: register_conv)
  from reg unreg fac log show ?thesis
    using receivers_call_adapter_once
            [where e = ?e and x = ?x and env = ?env and kwargs = "()" and f = ?f and b = 4]
          receivers_call_adapter_once
            [where e = ?e and x = ?y and env = ?env and kwargs = "()" and f = ?f and b = 4]
    by (simp add: Let_def)
qed

text \<open>
  Claim C2. In every state in which \<open>M\<close> is registered, \<open>register(M, g)\<close> raises
  \<open>RegistrationError\<close> and returns the state unchanged: the dictionary, both subscription
  lists and the call log (so the adapter class is not called). In particular, after a first
  successful \<open>register(M, f)\<close> that created adapter \<open>a\<close>, a second \<open>register\<close> fails,
  \<open>M\<close> still has the single entry \<open>(M, a)\<close> and \<open>get_adapter(M)\<close> still returns \<open>a\<close>.
\<close>

theorem register_registered_fails:
  fixes e :: "('m, 'a, 'd) world"
  shows
  "(fst (is_registered e M) \<longrightarrow>
      register e M g = (Inl (RegistrationError (AlreadyRegistered M)), e)) \<and>
   (\<not> fst (is_registered e M) \<and> f M (client e) = Inr a \<longrightarrow>
      (let e1 = snd (register e M f) in
         fst (register e M f) = Inr () \<and>
         register e1 M g = (Inl (RegistrationError (AlreadyRegistered M)), e1) \<and>
         get_adapter e1 M = (Inr a, e1) \<and>
         filter (\<lambda>p. fst p = M) (registered_models e1) = [(M, a)] \<and>
         calls e1 = calls e @ [IndexCls M (client e)]))"
proof (intro conjI impI)
  assume "fst (is_registered e M)"
  then show "register e M g = (Inl (RegistrationError (AlreadyRegistered M)), e)"
    by (simp add: register_conv is_registered_conv)
next
  assume h: "\<not> fst (is_registered e M) \<and> f M (client e) = Inr a"
  then have notin: "M \<notin> fst ` set (registered_models e)"
    by (simp add: is_registered_conv)
  have flt: "filter (\<lambda>p. fst p = M) (AList.update M a d) = [(M, a)]"
    if "M \<notin> fst ` set d" for d :: "('m \<times> 'a) list"
    using that by (induction d) auto
  from h notin flt [OF notin] show "let e1 = snd (register e M f) in
         fst (register e M f) = Inr () \<and>
         register e1 M g = (Inl (RegistrationError (AlreadyRegistered M)), e1) \<and>
         get_adapter e1 M = (Inr a, e1) \<and>
         filter (\<lambda>p. fst p = M) (registered_models e1) = [(M, a)] \<and>
         calls e1 = calls e @ [IndexCls M (client e)]"
    by (simp add: register_conv get_adapter_conv Let_def AList.dom_update AList.update_conv')
qed

text \<open>The same at a concrete state.\<close>

theorem register_registered_fails_witness:
  "(let e0 = \<lparr>registered_models = [], client = Client ''app'' ''key'',
              post_save = [], pre_delete = [], calls = []\<rparr> :: (string, nat, nat) world;
        f = (\<lambda>m c. Inr 1); g = (\<lambda>m c. Inr 2);
        e1 = snd (register e0 ''Article'' f)
    in \<not> fst (is_registered e0 ''Article'') \<and> fst (register e0 ''Article'' f) = Inr () \<and>
       fst (is_registered e1 ''Article'') \<and>
       register e1 ''Article'' g = (Inl (RegistrationError (AlreadyRegistered ''Article'')), e1) \<and>
       registered_models e1 = [(''Article'', 1)] \<and>
       post_save e1 = [''Article''] \<and> pre_delete e1 = [''Article''])"
  using register_registered_fails
          [where e = "\<lparr>registered_models = [], client = Client ''app'' ''key'',
                       post_save = [], pre_delete = [], calls = []\<rparr> :: (string, nat, nat) world"
             and M = "''Article''" and f = "\<lambda>m c. Inr 1" and g = "\<lambda>m c. Inr 2" and a = 1]
        register_registered_fails
          [where e = "snd (register (\<lparr>registered_models = [], client = Client ''app'' ''key'',
                       post_save = [], pre_delete = [], calls = []\<rparr> :: (string, nat, nat) world)
                       ''Article'' (\<lambda>m c. Inr 1))"
             and M = "''Article''" and g = "\<lambda>m c. Inr 2"]
  by (simp add: is_registered_conv register_conv connect_def Let_def)

text \<open>
  Claim C3. In every state in which \<open>M\<close> is not registered, \<open>unregister(M)\<close> raises
  \<open>RegistrationError\<close> and returns the state unchanged; on a freshly initialised engine
  the registry is empty afterwards.
\<close>

theorem unregister_unregistered_fails:
  fixes e :: "('m, 'a, 'd) world"
  shows
  "(\<not> fst (is_registered e M) \<longrightarrow>
      unregister e M = (Inl (RegistrationError (NotRegistered M)), e)) \<and>
   (let e0 = AlgoliaEngine_init s :: ('m, 'a, 'd) world in
      unregister e0 M = (Inl (RegistrationError (NotRegistered M)), e0) \<and>
      registered_models (snd (unregister e0 M)) = [])"
  by (simp add: unregister_conv is_registered_conv AlgoliaEngine_init_def Let_def)

text \<open>The same at a concrete state.\<close>

theorem unregister_unregistered_fails_witness:
  "(let e = \<lparr>registered_models = [(''Article'', 1::nat)], client = Client ''app'' ''key'',
             post_save = [''Article''], pre_delete = [''Article''],
             calls = []\<rparr> :: (string, nat, nat) world
    in \<not> fst (is_registered e ''Comment'') \<and>
       unregister e ''Comment'' = (Inl (RegistrationError (NotRegistered ''Comment'')), e))"
  using unregister_unregistered_fails
          [where e = "\<lparr>registered_models = [(''Article'', 1::nat)], client = Client ''app'' ''key'',
                       post_save = [''Article''], pre_delete = [''Article''],
                       calls = []\<rparr> :: (string, nat, nat) world"
             and M = "''Comment''"
             and s = "\<lparr>ALGOLIA_APPLICATION_ID = ''app'', ALGOLIA_API_KEY = ''key''\<rparr>"]
  by (simp add: is_registered_conv Let_def)



text \<open>
  Claim C5. When the class of \<open>obj\<close> is registered, the dictionary holds an adapter under
  that class, \<open>get_adapter_from_instance(obj)\<close> returns that adapter, and
  \<open>update_obj_index(obj)\<close> and \<open>delete_obj_index(obj)\<close> make exactly one call, the update
  respectively delete operation of that adapter applied to \<open>obj\<close>, whose failure is passed
  on unchanged. When the class of \<open>obj\<close> is not registered, all three raise
  \<open>RegistrationError\<close> and the state, call log included, is unchanged: no adapter is
  called. Once \<open>register\<close> has stored the adapter \<open>b\<close> its adapter class returned for the
  class of \<open>obj\<close>, all three resolve to \<open>b\<close>.
\<close>

theorem obj_index_forwards_to_adapter:
  fixes e :: "('m, 'a, 'd) world" and env :: "('m, 'a, 'd) behaviour"
  shows
  "(fst (is_registered e (class_of obj)) \<longrightarrow>
      (\<exists>adapter.
         map_of (registered_models e) (class_of obj) = Some adapter \<and>
         get_adapter_from_instance e obj = (Inr adapter, e) \<and>
         update_obj_index env e obj =
           ((case env (calls e) (UpdateObjIndex adapter obj) of
               None \<Rightarrow> Inr () | Some x \<Rightarrow> Inl (Foreign x)),
            e\<lparr>calls := calls e @ [UpdateObjIndex adapter obj]\<rparr>) \<and>
         delete_obj_index env e obj =
           ((case env (calls e) (DeleteObjIndex adapter obj) of
               None \<Rightarrow> Inr () | Some x \<Rightarrow> Inl (Foreign x)),
            e\<lparr>calls := calls e @ [DeleteObjIndex adapter obj]\<rparr>))) \<and>
   (\<not> fst (is_registered e (class_of obj)) \<longrightarrow>
      get_adapter_from_instance e obj =
        (Inl (RegistrationError (NotRegistered (class_of obj))), e) \<and>
      update_obj_index env e obj =
        (Inl (RegistrationError (NotRegistered (class_of obj))), e) \<and>
      delete_obj_index env e obj =
        (Inl (RegistrationError (NotRegistered (class_of obj))), e)) \<and>
   (\<not> fst (is_registered e (class_of obj)) \<and> f (class_of obj) (client e) = Inr b \<longrightarrow>
      (let e1 = snd (register e (class_of obj) f) in
         get_adapter_from_instance e1 obj = (Inr b, e1) \<and>
         update_obj_index env e1 obj =
           ((case env (calls e1) (UpdateObjIndex b obj) of
               None \<Rightarrow> Inr () | Some x \<Rightarrow> Inl (Foreign x)),
            e1\<lparr>calls := calls e1 @ [UpdateObjIndex b obj]\<rparr>) \<and>
         delete_obj_index env e1 obj =
           ((case env (calls e1) (DeleteObjIndex b obj) of
               None \<Rightarrow> Inr () | Some x \<Rightarrow> Inl (Foreign x)),
            e1\<lparr>calls := calls e1 @ [DeleteObjIndex b obj]\<rparr>)))"
proof (intro conjI impI)
  assume "fst (is_registered e (class_of obj))"
  then obtain a where "map_of (registered_models e) (class_of obj) = Some a"
    using registered_map_of by (fastforce simp: is_registered_conv)
  then show "\<exists>adapter.
         map_of (registered_models e) (class_of obj) = Some adapter \<and>
         get_adapter_from_instance e obj = (Inr adapter, e) \<and>
         update_obj_index env e obj =
           ((case env (calls e) (UpdateObjIndex adapter obj) of
               None \<Rightarrow> Inr () | Some x \<Rightarrow> Inl (Foreign x)),
            e\<lparr>calls := calls e @ [UpdateObjIndex adapter obj]\<rparr>) \<and>
         delete_obj_index env e obj =
           ((case env (calls e) (DeleteObjIndex adapter obj) of
               None \<Rightarrow> Inr () | Some x \<Rightarrow> Inl (Foreign x)),
            e\<lparr>calls := calls e @ [DeleteObjIndex adapter obj]\<rparr>)"
    by (simp add: get_adapter_from_instance_conv update_obj_index_conv delete_obj_index_conv)
next
  assume "\<not> fst (is_registered e (class_of obj))"
  then have none: "map_of (registered_models e) (class_of obj) = None"
    by (simp add: is_registered_conv map_of_eq_None_iff)
  show "get_adapter_from_instance e obj =
        (Inl (RegistrationError (NotRegistered (class_of obj))), e)"
    by (simp add: get_adapter_from_instance_conv none)
  show "update_obj_index env e obj =
        (Inl (RegistrationError (NotRegistered (class_of obj))), e)"
    by (simp add: update_obj_index_conv none)
  show "delete_obj_index env e obj =
        (Inl (RegistrationError (NotRegistered (class_of obj))), e)"
    by (simp add: delete_obj_index_conv none)
next
  assume h: "\<not> fst (is_registered e (class_of obj)) \<and> f (class_of obj) (client e) = Inr b"
  let ?e1 = "snd (register e (class_of obj) f)"
  from h have "map_of (registered_models ?e1) (class_of obj) = Some b"
    by (simp add: register_conv is_registered_conv AList.update_conv')
  then show "let e1 = snd (register e (class_of obj) f) in
         get_adapter_from_instance e1 obj = (Inr b, e1) \<and>
         update_obj_index env e1 obj =
           ((case env (calls e1) (UpdateObjIndex b obj) of
               None \<Rightarrow> Inr () | Some x \<Rightarrow> Inl (Foreign x)),
            e1\<lparr>calls := calls e1 @ [UpdateObjIndex b obj]\<rparr>) \<and>
         delete_obj_index env e1 obj =
           ((case env (calls e1) (DeleteObjIndex b obj) of
               None \<Rightarrow> Inr () | Some x \<Rightarrow> Inl (Foreign x)),
            e1\<lparr>calls := calls e1 @ [DeleteObjIndex b obj]\<rparr>)"
    by (simp add: Let_def get_adapter_from_instance_conv update_obj_index_conv
          delete_obj_index_conv)
qed

text \<open>The same at a concrete state.\<close>

theorem obj_index_forwards_to_adapter_witness:
  "(let e = \<lparr>registered_models = [(''Author'', 2::nat), (''Article'', 1), (''Comment'', 3)],
             client = Client ''app'' ''key'',
             post_save = [''Author'', ''Article'', ''Comment''],
             pre_delete = [''Author'', ''Article'', ''Comment''],
             calls = []\<rparr>;
        x = \<lparr>class_of = ''Article'', attrs = 7::nat\<rparr>;
        y = \<lparr>class_of = ''Tag'', attrs = 3::nat\<rparr>;
        env = (\<lambda>log c. if c = DeleteObjIndex 1 x then Some (Raised ''AlgoliaException'') else None);
        e1 = snd (register e ''Tag'' (\<lambda>m c. Inr 4))
    in fst (is_registered e (class_of x)) \<and>
       map_of (registered_models e) (class_of x) = Some 1 \<and>
       get_adapter_from_instance e x = (Inr 1, e) \<and>
       update_obj_index env e x = (Inr (), e\<lparr>calls := [UpdateObjIndex 1 x]\<rparr>) \<and>
       delete_obj_index env e x =
         (Inl (Foreign (Raised ''AlgoliaException'')), e\<lparr>calls := [DeleteObjIndex 1 x]\<rparr>) \<and>
       \<not> fst (is_registered e (class_of y)) \<and>
       update_obj_index env e y = (Inl (RegistrationError (NotRegistered ''Tag'')), e) \<and>
       delete_obj_index env e y = (Inl (RegistrationError (NotRegistered ''Tag'')), e) \<and>
       calls e1 = [IndexCls ''Tag'' (Client ''app'' ''key'')] \<and>
       get_adapter_from_instance e1 y = (Inr 4, e1) \<and>
       update_obj_index env e1 y =
         (Inr (), e1\<lparr>calls := [IndexCls ''Tag'' (Client ''app'' ''key''), UpdateObjIndex 4 y]\<rparr>) \<and>
       delete_obj_index env e1 y =
         (Inr (), e1\<lparr>calls := [IndexCls ''Tag'' (Client ''app'' ''key''), DeleteObjIndex 4 y]\<rparr>))"
proof -
  let ?e = "\<lparr>registered_models = [(''Author'', 2::nat), (''Article'', 1), (''Comment'', 3)],
             client = Client ''app'' ''key'',
             post_save = [''Author'', ''Article'', ''Comment''],
             pre_delete = [''Author'', ''Article'', ''Comment''],
             calls = []\<rparr> :: (string, nat, nat) world"
  let ?x = "\<lparr>class_of = ''Article'', attrs = 7::nat\<rparr>"
  let ?y = "\<lparr>class_of = ''Tag'', attrs = 3::nat\<rparr>"
  let ?env = "(\<lambda>log c. if c = DeleteObjIndex 1 ?x then Some (Raised ''AlgoliaException'')
                        else None) :: (string, nat, nat) behaviour"
  let ?f = "(\<lambda>m c. Inr 4) :: string \<Rightarrow> Client \<Rightarrow> exn + nat"
  have reg: "fst (is_registered ?e (class_of ?x))"
    by (simp add: is_registered_conv)
  have unreg: "\<not> fst (is_registered ?e (class_of ?y))"
    by (simp add: is_registered_conv)
  have fac: "?f (class_of ?y) (client ?e) = Inr 4"
    by simp
  have log: "calls (snd (register ?e ''Tag'' ?f)) = [IndexCls ''Tag'' (Client ''app'' ''key'')]"
    by (simp add: register_conv)
  from reg unreg fac log show ?thesis
    using obj_index_forwards_to_adapter
            [where e = ?e and obj = ?x and env = ?env and f = ?f and b = 4]
          obj_index_forwards_to_adapter
            [where e = ?e and obj = ?y and env = ?env and f = ?f and b = 4]
    by (simp add: Let_def)
qed

text \<open>
  Claim C6. For an instance \<open>x\<close> of a registered class, \<open>get_adapter_from_instance(x)\<close>
  returns an adapter and it is the one \<open>get_adapter\<close> returns for the class of \<open>x\<close>.
\<close>

theorem get_adapter_from_instance_same:
  fixes e :: "('m, 'a, 'd) world"
  assumes "fst (is_registered e (class_of x))"
  shows "\<exists>a. get_adapter e (class_of x) = (Inr a, e) \<and>
             get_adapter_from_instance e x = (Inr a, e)"
proof -
  from assms obtain a where "map_of (registered_models e) (class_of x) = Some a"
    using registered_map_of by (fastforce simp: is_registered_conv)
  then show ?thesis
    by (simp add: get_adapter_conv get_adapter_from_instance_conv)
qed

text \<open>The same at a concrete state.\<close>

theorem get_adapter_from_instance_same_witness:
  "(let e = \<lparr>registered_models = [(''Author'', 2::nat), (''Article'', 1)],
             client = Client ''app'' ''key'',
             post_save = [''Author'', ''Article''], pre_delete = [''Author'', ''Article''],
             calls = []\<rparr> :: (string, nat, nat) world;
        x = \<lparr>class_of = ''Article'', attrs = 7::nat\<rparr>
    in fst (is_registered e (class_of x)) \<and>
       get_adapter e ''Article'' = (Inr 1, e) \<and>
       get_adapter_from_instance e x = (Inr 1, e))"
  using get_adapter_from_instance_same
          [where e = "\<lparr>registered_models = [(''Author'', 2::nat), (''Article'', 1)],
                       client = Client ''app'' ''key'',
                       post_save = [''Author'', ''Article''], pre_delete = [''Author'', ''Article''],
                       calls = []\<rparr> :: (string, nat, nat) world"
             and x = "\<lparr>class_of = ''Article'', attrs = 7::nat\<rparr>"]
  by (simp add: is_registered_conv get_adapter_conv Let_def)

text \<open>
  Claim C7. The elements of the list \<open>get_registered_models()\<close> returns are exactly the
  models for which \<open>is_registered\<close> is true; the call leaves the state unchanged, and the
  list has no duplicates when no model has two entries. On a freshly initialised engine,
  registering two different models \<open>A\<close> and \<open>B\<close> (with adapter classes that return an
  adapter) and then unregistering \<open>A\<close> all succeed, and \<open>get_registered_models()\<close> then
  returns the list holding just \<open>B\<close>.
\<close>

theorem get_registered_models_exact:
  fixes e :: "('m, 'a, 'd) world"
  shows
  "set (fst (get_registered_models e)) = {m. fst (is_registered e m)} \<and>
   snd (get_registered_models e) = e \<and>
   (at_most_one_adapter e \<longrightarrow> distinct (fst (get_registered_models e))) \<and>
   (A \<noteq> B \<and> f A (Client (ALGOLIA_APPLICATION_ID s) (ALGOLIA_API_KEY s)) = Inr a \<and>
    g B (Client (ALGOLIA_APPLICATION_ID s) (ALGOLIA_API_KEY s)) = Inr b \<longrightarrow>
      (let e0 = AlgoliaEngine_init s :: ('m, 'a, 'd) world;
           r1 = register e0 A f; r2 = register (snd r1) B g; r3 = unregister (snd r2) A
       in fst r1 = Inr () \<and> fst r2 = Inr () \<and> fst r3 = Inr () \<and>
          fst (get_registered_models (snd r3)) = [B]))"
  by (simp add: get_registered_models_def dict_keys_def is_registered_conv at_most_one_adapter_def
        register_conv unregister_conv AlgoliaEngine_init_def Let_def)

text \<open>The same at a concrete state.\<close>

theorem get_registered_models_exact_witness:
  "(let s = \<lparr>ALGOLIA_APPLICATION_ID = ''app'', ALGOLIA_API_KEY = ''key''\<rparr>;
        e0 = AlgoliaEngine_init s :: (string, nat, nat) world;
        r1 = register e0 ''A'' (\<lambda>m c. Inr 1);
        r2 = register (snd r1) ''B'' (\<lambda>m c. Inr 2);
        r3 = unregister (snd r2) ''A''
    in ''A'' \<noteq> ''B'' \<and> at_most_one_adapter (snd r2) \<and>
       distinct (fst (get_registered_models (snd r2))) \<and>
       set (fst (get_registered_models (snd r2))) = {''A'', ''B''} \<and>
       fst r1 = Inr () \<and> fst r2 = Inr () \<and> fst r3 = Inr () \<and>
       fst (get_registered_models (snd r3)) = [''B''])"
proof -
  let ?s = "\<lparr>ALGOLIA_APPLICATION_ID = ''app'', ALGOLIA_API_KEY = ''key''\<rparr>"
  let ?e0 = "AlgoliaEngine_init ?s :: (string, nat, nat) world"
  let ?e2 = "snd (register (snd (register ?e0 ''A'' (\<lambda>m c. Inr 1))) ''B'' (\<lambda>m c. Inr 2))"
  have keys: "registered_models ?e2 = [(''A'', 1), (''B'', 2)]"
    by (simp add: register_conv AlgoliaEngine_init_def)
  then have inv: "at_most_one_adapter ?e2"
    by (simp add: at_most_one_adapter_def)
  have reg: "{m. fst (is_registered ?e2 m)} = {''A'', ''B''}"
    unfolding is_registered_conv fst_conv keys by auto
  from inv reg show ?thesis
    using get_registered_models_exact
            [where e = ?e2 and A = "''A''" and B = "''B''" and s = ?s
               and f = "\<lambda>m c. Inr 1" and g = "\<lambda>m c. Inr 2" and a = 1 and b = 2]
    by (simp add: Let_def)
qed

text \<open>
  Claim C8. If no model has two entries in the registry, the same holds of the state left
  by each of \<open>register\<close>, \<open>unregister\<close>, \<open>is_registered\<close>, \<open>get_registered_models\<close>,
  \<open>get_adapter\<close>, \<open>get_adapter_from_instance\<close>, \<open>update_obj_index\<close> and
  \<open>delete_obj_index\<close>, whether the call returns or raises, and so of the state after any
  sequence of calls. It holds of every state reached from a freshly initialised engine.
\<close>

theorem at_most_one_adapter_preserved:
  fixes e :: "('m, 'a, 'd) world" and env :: "('m, 'a, 'd) behaviour"
  shows
  "(at_most_one_adapter e \<longrightarrow>
      at_most_one_adapter (snd (register e M f)) \<and>
      at_most_one_adapter (snd (unregister e M)) \<and>
      at_most_one_adapter (snd (is_registered e M)) \<and>
      at_most_one_adapter (snd (get_registered_models e)) \<and>
      at_most_one_adapter (snd (get_adapter e M)) \<and>
      at_most_one_adapter (snd (get_adapter_from_instance e x)) \<and>
      at_most_one_adapter (snd (update_obj_index env e x)) \<and>
      at_most_one_adapter (snd (delete_obj_index env e x)) \<and>
      at_most_one_adapter (run env e ops)) \<and>
   at_most_one_adapter (run env (AlgoliaEngine_init s) ops)"
proof (intro conjI impI)
  assume inv: "at_most_one_adapter e"
  from inv show "at_most_one_adapter (snd (register e M f))"
    using step_invariant [of e env "CallRegister M f"] by simp
  from inv show "at_most_one_adapter (snd (unregister e M))"
    using step_invariant [of e env "CallUnregister M"] by simp
  from inv show "at_most_one_adapter (snd (is_registered e M))"
    using step_invariant [of e env "CallIsRegistered M"] by simp
  from inv show "at_most_one_adapter (snd (get_registered_models e))"
    using step_invariant [of e env CallGetRegisteredModels] by simp
  from inv show "at_most_one_adapter (snd (get_adapter e M))"
    using step_invariant [of e env "CallGetAdapter M"] by simp
  from inv show "at_most_one_adapter (snd (get_adapter_from_instance e x))"
    using step_invariant [of e env "CallGetAdapterFromInstance x"] by simp
  from inv show "at_most_one_adapter (snd (update_obj_index env e x))"
    using step_invariant [of e env "CallUpdateObjIndex x"] by simp
  from inv show "at_most_one_adapter (snd (delete_obj_index env e x))"
    using step_invariant [of e env "CallDeleteObjIndex x"] by simp
  from inv show "at_most_one_adapter (run env e ops)"
    by (rule run_invariant)
next
  show "at_most_one_adapter (run env (AlgoliaEngine_init s) ops)"
    by (rule run_invariant) (rule invariant_init)
qed

text \<open>The same at a concrete state.\<close>

theorem at_most_one_adapter_preserved_witness:
  "(let e = \<lparr>registered_models = [(''Author'', 2::nat), (''Article'', 1)],
             client = Client ''app'' ''key'',
             post_save = [''Author'', ''Article''], pre_delete = [''Author'', ''Article''],
             calls = []\<rparr> :: (string, nat, nat) world;
        x = \<lparr>class_of = ''Article'', attrs = 7::nat\<rparr>;
        env = (\<lambda>log c. None)
    in at_most_one_adapter e \<and>
       at_most_one_adapter (snd (register e ''Comment'' (\<lambda>m c. Inr 3))) \<and>
       at_most_one_adapter (snd (unregister e ''Author'')) \<and>
       at_most_one_adapter (snd (update_obj_index env e x)) \<and>
       at_most_one_adapter (snd (delete_obj_index env e x)))"
proof -
  let ?e = "\<lparr>registered_models = [(''Author'', 2::nat), (''Article'', 1)],
             client = Client ''app'' ''key'',
             post_save = [''Author'', ''Article''], pre_delete = [''Author'', ''Article''],
             calls = []\<rparr> :: (string, nat, nat) world"
  have inv: "at_most_one_adapter ?e"
    by (simp add: at_most_one_adapter_def)
  then show ?thesis
    using at_most_one_adapter_preserved
            [where e = ?e and M = "''Comment''" and f = "\<lambda>m c. Inr 3"
               and x = "\<lparr>class_of = ''Article'', attrs = 7::nat\<rparr>" and env = "\<lambda>log c. None"]
          at_most_one_adapter_preserved
            [where e = ?e and M = "''Author''"
               and x = "\<lparr>class_of = ''Article'', attrs = 7::nat\<rparr>" and env = "\<lambda>log c. None"]
    by (simp add: Let_def)
qed

text \<open>
  Claim C9. \<open>is_registered(M)\<close> returns the state it was given, whole (dictionary,
  subscriptions and call log), and its result is whether \<open>M\<close> is a key of the
  dictionary.
\<close>

theorem is_registered_pure:
  "snd (is_registered e M) = e \<and>
   fst (is_registered e M) = (\<exists>a. (M, a) \<in> set (registered_models e))"
  by (force simp: is_registered_conv)

text \<open>
  Claim C10. Adapter lookup uses the exact class of the instance. When that class is not
  registered, \<open>get_adapter_from_instance\<close>, \<open>update_obj_index\<close> and \<open>delete_obj_index\<close>
  raise \<open>RegistrationError\<close> naming that class and leave the state unchanged, even when a
  class \<open>base\<close> in the method resolution order \<open>mro\<close> of the instance's class (a
  superclass) is registered. The class hierarchy \<open>mro\<close> is arbitrary.
\<close>

theorem no_superclass_fallback:
  fixes e :: "('m, 'a, 'd) world" and env :: "('m, 'a, 'd) behaviour"
    and mro :: "'m \<Rightarrow> 'm list"
  assumes "\<not> fst (is_registered e (class_of x))"
    and "base \<in> set (mro (class_of x))"
    and "fst (is_registered e base)"
  shows "get_adapter_from_instance e x =
           (Inl (RegistrationError (NotRegistered (class_of x))), e) \<and>
         update_obj_index env e x =
           (Inl (RegistrationError (NotRegistered (class_of x))), e) \<and>
         delete_obj_index env e x =
           (Inl (RegistrationError (NotRegistered (class_of x))), e)"
proof -
  from assms(1) have "map_of (registered_models e) (class_of x) = None"
    by (simp add: is_registered_conv map_of_eq_None_iff)
  then show ?thesis
    by (simp add: get_adapter_from_instance_conv update_obj_index_conv delete_obj_index_conv)
qed

text \<open>The same at a concrete state.\<close>

theorem no_superclass_fallback_witness:
  "(let e = \<lparr>registered_models = [(''Article'', 1::nat)], client = Client ''app'' ''key'',
             post_save = [''Article''], pre_delete = [''Article''], calls = []\<rparr>;
        x = \<lparr>class_of = ''FeaturedArticle'', attrs = 7::nat\<rparr>;
        mro = (\<lambda>c. if c = ''FeaturedArticle''
                     then [''FeaturedArticle'', ''Article'', ''Model'', ''object'']
                     else [c, ''object'']);
        env = (\<lambda>log c. None)
    in \<not> fst (is_registered e (class_of x)) \<and>
       ''Article'' \<in> set (mro (class_of x)) \<and>
       fst (is_registered e ''Article'') \<and>
       get_adapter_from_instance e x =
         (Inl (RegistrationError (NotRegistered ''FeaturedArticle'')), e) \<and>
       update_obj_index env e x =
         (Inl (RegistrationError (NotRegistered ''FeaturedArticle'')), e) \<and>
       delete_obj_index env e x =
         (Inl (RegistrationError (NotRegistered ''FeaturedArticle'')), e))"
proof -
  let ?e = "\<lparr>registered_models = [(''Article'', 1::nat)], client = Client ''app'' ''key'',
             post_save = [''Article''], pre_delete = [''Article''],
             calls = []\<rparr> :: (string, nat, nat) world"
  let ?x = "\<lparr>class_of = ''FeaturedArticle'', attrs = 7::nat\<rparr>"
  let ?mro = "\<lambda>c. if c = ''FeaturedArticle''
                     then [''FeaturedArticle'', ''Article'', ''Model'', ''object'']
                     else [c, ''object'']"
  have h1: "\<not> fst (is_registered ?e (class_of ?x))"
    by (simp add: is_registered_conv)
  have h2: "''Article'' \<in> set (?mro (class_of ?x))"
    by simp
  have h3: "fst (is_registered ?e ''Article'')"
    by (simp add: is_registered_conv)
  from h1 h2 h3 show ?thesis
    using no_superclass_fallback
            [where e = ?e and x = ?x and mro = ?mro and base = "''Article''"
               and env = "\<lambda>log c. None", OF h1 h2 h3]
    by (simp add: Let_def)
qed

end
